theory Spec2Isabelle
  imports Main "HOL-Library.Sublist"
begin

text \<open>
  A model of the IRC-to-Slack bridge: the IRC line codec, the handling of one line read
  from IRC, the identity cache, the inbound webhook handler and the session manager with
  its reconnect loop. Functions keep the names they have in the Go source. A function
  that can panic returns \<open>error + 'a\<close>; a function that reads the clock, the network
  or the cache takes the environment and the state and returns the new state; what the
  program sends out is a list of events.
\<close>

section \<open>Go strings, slices and run-time panics\<close>

text \<open>
  A Go string is a sequence of bytes, so it is modelled as \<open>string\<close> (a list of 8-bit
  characters). Indices are Go \<open>int\<close>s; they are modelled as \<open>int\<close>, because the
  source computes with the value \<open>-1\<close> that \<open>strings.Index\<close> returns for "not found".
  A slice expression whose bounds are out of range panics; the panic is a value.
\<close>

datatype error = Panic

abbreviation CR :: char where "CR \<equiv> CHR 0x0D"
abbreviation LF :: char where "LF \<equiv> CHR 0x0A"
abbreviation SOH :: char where "SOH \<equiv> CHR 0x01"

definition HasPrefix :: "string \<Rightarrow> string \<Rightarrow> bool" where
  \<comment> \<open>\<open>strings.HasPrefix(s, p)\<close>\<close>
  "HasPrefix s p = prefix p s"

fun Index :: "string \<Rightarrow> string \<Rightarrow> int" where
  \<comment> \<open>\<open>strings.Index(s, sep)\<close>: the index of the first occurrence of \<open>sep\<close>, or -1\<close>
  "Index [] sep = (if sep = [] then 0 else - 1)"
| "Index (c # s) sep =
     (if prefix sep (c # s) then 0
      else (let i = Index s sep in if i < 0 then - 1 else i + 1))"

definition Contains :: "string \<Rightarrow> string \<Rightarrow> bool" where
  \<comment> \<open>\<open>strings.Contains(s, sub)\<close>\<close>
  "Contains s sub = (0 \<le> Index s sub)"

definition Replace1 :: "string \<Rightarrow> string \<Rightarrow> string \<Rightarrow> string" where
  \<comment> \<open>\<open>strings.Replace(s, old, new, 1)\<close>: only the first occurrence is replaced\<close>
  "Replace1 s old new =
     (let i = Index s old in
      if i < 0 then s
      else take (nat i) s @ new @ drop (nat i + length old) s)"

definition TrimRight :: "string \<Rightarrow> string \<Rightarrow> string" where
  \<comment> \<open>\<open>strings.TrimRight(s, cutset)\<close> for a cutset of single-byte characters\<close>
  "TrimRight s cutset = rev (dropWhile (\<lambda>c. c \<in> set cutset) (rev s))"

definition slice :: "string \<Rightarrow> int \<Rightarrow> int \<Rightarrow> error + string" where
  \<comment> \<open>\<open>s[lo:hi]\<close>: panics unless \<open>0 \<le> lo \<le> hi \<le> len(s)\<close>\<close>
  "slice s lo hi =
     (if 0 \<le> lo \<and> lo \<le> hi \<and> hi \<le> int (length s)
      then Inr (take (nat (hi - lo)) (drop (nat lo) s))
      else Inl Panic)"

definition slice_from :: "string \<Rightarrow> int \<Rightarrow> error + string" where
  \<comment> \<open>\<open>s[lo:]\<close>\<close>
  "slice_from s lo = slice s lo (int (length s))"

section \<open>IRC line codec\<close>

definition extractNickname :: "string \<Rightarrow> error + string" where
  "extractNickname message =
     (let prefixEnd = Index message ''!'' in
      if prefixEnd = - 1 then Inr []
      else slice message 1 prefixEnd)"

definition extractIRCMessage :: "string \<Rightarrow> error + string" where
  "extractIRCMessage message =
     (let idx = Index message '' PRIVMSG '' in
      if idx = - 1 then Inr []
      else case slice_from message (idx + int (length '' PRIVMSG '')) of
             Inl e \<Rightarrow> Inl e
           | Inr rest \<Rightarrow>
               (let colonIdx = Index rest '' :'' in
                if colonIdx = - 1 then Inr []
                else case slice_from rest (colonIdx + 2) of
                       Inl e \<Rightarrow> Inl e
                     | Inr t \<Rightarrow> Inr (TrimRight t [CR, LF])))"

definition extractActionMessage :: "string \<Rightarrow> error + string" where
  "extractActionMessage message =
     (let start = Index message ''ACTION'' + int (length ''ACTION '') in
      case slice_from message start of
        Inl e \<Rightarrow> Inl e
      | Inr tail \<Rightarrow>
          (let end' = Index tail [SOH] in
           if end' = - 1 then Inr (TrimRight tail [CR, LF])
           else slice message start (start + end')))"

section \<open>Formatted output with an empty operand list\<close>

text \<open>
  The source hands a line it has built to \<open>fmt.Fprintf(conn, line)\<close>: the line is the
  format string and there are no operands. \<open>doPrintf\<close> follows the scanner of Go's
  \<open>fmt\<close> package for that case. Text up to a \<open>%\<close> is copied. After a \<open>%\<close> come
  flags, an optional argument index \<open>[n]\<close>, a width, a precision and the verb; with no
  operand to print, \<open>%%\<close> prints \<open>%\<close>, a verb prints \<open>%!verb(MISSING)\<close> (or
  \<open>%!verb(BADINDEX)\<close> after an argument index), a \<open>*\<close> width or precision prints
  \<open>%!(BADWIDTH)\<close> or \<open>%!(BADPREC)\<close>, and a \<open>%\<close> with no verb after it prints
  \<open>%!(NOVERB)\<close>. The output is handed to the connection in one \<open>Write\<close> call.
\<close>

definition byte :: "char \<Rightarrow> nat" where
  "byte c = of_char c"

definition isDigit :: "char \<Rightarrow> bool" where
  "isDigit c = (byte CHR ''0'' \<le> byte c \<and> byte c \<le> byte CHR ''9'')"

definition isCont :: "char \<Rightarrow> bool" where
  \<comment> \<open>a UTF-8 continuation byte\<close>
  "isCont c = (0x80 \<le> byte c \<and> byte c \<le> 0xBF)"

definition between :: "nat \<Rightarrow> char \<Rightarrow> nat \<Rightarrow> bool" where
  "between lo c hi = (lo \<le> byte c \<and> byte c \<le> hi)"

fun runeLen :: "string \<Rightarrow> nat option" where
  \<comment> \<open>the length of the well-formed UTF-8 encoding at the head of a string, if there is one\<close>
  "runeLen [] = None"
| "runeLen (b0 # s) =
     (if byte b0 < 0x80 then Some 1
      else if between 0xC2 b0 0xDF then
        (case s of b1 # _ \<Rightarrow> if isCont b1 then Some 2 else None | _ \<Rightarrow> None)
      else if between 0xE0 b0 0xEF then
        (case s of b1 # b2 # _ \<Rightarrow>
           if between (if byte b0 = 0xE0 then 0xA0 else 0x80) b1
                      (if byte b0 = 0xED then 0x9F else 0xBF) \<and> isCont b2
           then Some 3 else None
         | _ \<Rightarrow> None)
      else if between 0xF0 b0 0xF4 then
        (case s of b1 # b2 # b3 # _ \<Rightarrow>
           if between (if byte b0 = 0xF0 then 0x90 else 0x80) b1
                      (if byte b0 = 0xF4 then 0x8F else 0xBF) \<and> isCont b2 \<and> isCont b3
           then Some 4 else None
         | _ \<Rightarrow> None)
      else None)"

definition decodeVerb :: "string \<Rightarrow> string \<times> string" where
  \<comment> \<open>the verb rune at the head of a non-empty format, as \<open>writeRune\<close> prints it, and the
      format after it; a malformed encoding is one byte wide and prints as U+FFFD\<close>
  "decodeVerb f =
     (case runeLen f of
        Some n \<Rightarrow> (take n f, drop n f)
      | None \<Rightarrow> ([CHR 0xEF, CHR 0xBF, CHR 0xBD], drop 1 f))"

fun parsenum :: "nat \<Rightarrow> bool \<Rightarrow> string \<Rightarrow> nat \<times> bool \<times> string option" where
  \<comment> \<open>\<open>parsenum\<close>: the number, whether there was one, and the text after it;
      \<open>None\<close> for the text stands for \<open>newi = end\<close> after an overflow\<close>
  "parsenum num isnum [] = (num, isnum, Some [])"
| "parsenum num isnum (c # s) =
     (if isDigit c then
        (if 1000000 < num then (0, False, None)
         else parsenum (num * 10 + (byte c - byte CHR ''0'')) True s)
      else (num, isnum, Some (c # s)))"

definition parseArgNumber :: "string \<Rightarrow> nat \<times> bool" where
  \<comment> \<open>\<open>parseArgNumber\<close> on a format that starts with \<open>[\<close>: the number of bytes consumed and
      whether a well-formed index \<open>[n]\<close> was read\<close>
  "parseArgNumber f =
     (if length f < 3 then (1, False)
      else
        (let i = Index (drop 1 f) '']'' in
         if i < 0 then (1, False)
         else
           (case parsenum 0 False (take (nat i) (drop 1 f)) of
              (_, ok, Some []) \<Rightarrow> (nat i + 2, ok)
            | (_, ok, Some (_ # _)) \<Rightarrow> (nat i + 2, False)
            | (_, ok, None) \<Rightarrow> (nat i + 2, False))))"

record pp =
  goodArgNum :: bool
  afterIndex :: bool
  format :: string
  buf :: string

definition argNumber :: "pp \<Rightarrow> pp" where
  \<comment> \<open>\<open>argNumber\<close> with \<open>numArgs = 0\<close>: no index is ever in range\<close>
  "argNumber p =
     (case format p of
        [] \<Rightarrow> p\<lparr>afterIndex := False\<rparr>
      | c # s \<Rightarrow>
          (if c \<noteq> CHR ''['' then p\<lparr>afterIndex := False\<rparr>
           else (case parseArgNumber (c # s) of
                   (wid, ok) \<Rightarrow> p\<lparr>goodArgNum := False, afterIndex := ok,
                                    format := drop wid (c # s)\<rparr>)))"

definition isFlag :: "char \<Rightarrow> bool" where
  "isFlag c = (c \<in> set ''#0+- '')"

definition parseWidth :: "pp \<Rightarrow> pp" where
  "parseWidth p =
     (case format p of
        c # s \<Rightarrow>
          (if c = CHR ''*''
           then p\<lparr>format := s, buf := buf p @ ''%!(BADWIDTH)'', afterIndex := False\<rparr>
           else (case parsenum 0 False (c # s) of
                   (_, present, r) \<Rightarrow>
                     p\<lparr>format := (case r of Some t \<Rightarrow> t | None \<Rightarrow> []),
                       goodArgNum := (goodArgNum p \<and> \<not> (afterIndex p \<and> present))\<rparr>))
      | [] \<Rightarrow> p)"

definition parsePrecision :: "pp \<Rightarrow> pp" where
  \<comment> \<open>a \<open>.\<close> starts a precision only when a byte follows it (\<open>i+1 < end\<close>);
      as the last byte of the format it is left to be read as the verb\<close>
  "parsePrecision p =
     (case format p of
        c # s \<Rightarrow>
          (if c = CHR ''.'' \<and> s \<noteq> []
           then
             (let p1 = argNumber (p\<lparr>format := s, goodArgNum := (goodArgNum p \<and> \<not> afterIndex p)\<rparr>)
              in case format p1 of
                   d # t \<Rightarrow>
                     (if d = CHR ''*''
                      then p1\<lparr>format := t, buf := buf p1 @ ''%!(BADPREC)'', afterIndex := False\<rparr>
                      else (case parsenum 0 False (d # t) of
                              (_, _, r) \<Rightarrow> p1\<lparr>format := (case r of Some u \<Rightarrow> u | None \<Rightarrow> [])\<rparr>))
                 | [] \<Rightarrow> p1)
           else p)
      | [] \<Rightarrow> p)"

definition directive :: "string \<Rightarrow> string \<times> string" where
  \<comment> \<open>one directive, read from just after its \<open>%\<close>: what it prints and the format
      that follows it\<close>
  "directive f =
     (let p0 = \<lparr>goodArgNum = True, afterIndex = False,
                format = dropWhile isFlag f, buf = []\<rparr>;
          p1 = parsePrecision (parseWidth (argNumber p0));
          p2 = (if afterIndex p1 then p1 else argNumber p1)
      in case format p2 of
           [] \<Rightarrow> (buf p2 @ ''%!(NOVERB)'', [])
         | c # s \<Rightarrow>
             (if c = CHR ''%'' then (buf p2 @ ''%'', s)
              else case decodeVerb (c # s) of
                     (r, t) \<Rightarrow>
                       (buf p2 @ ''%!'' @ r @
                          (if goodArgNum p2 then ''(MISSING)'' else ''(BADINDEX)''), t)))"

lemma runeLen_le: "runeLen f = Some n \<Longrightarrow> 0 < n \<and> n \<le> length f"
  by (cases f) (auto split: if_splits list.splits)

lemma parsenum_len:
  "parsenum num isnum f = (n, b, Some t) \<Longrightarrow> length t \<le> length f"
  by (induction num isnum f rule: parsenum.induct) (auto split: if_splits)

lemma argNumber_len: "length (format (argNumber p)) \<le> length (format p)"
  by (auto simp: argNumber_def split: list.splits prod.splits)

lemma parseWidth_len: "length (format (parseWidth p)) \<le> length (format p)"
  by (auto simp: parseWidth_def dest: parsenum_len split: list.splits prod.splits option.splits)

lemma parsePrecision_len: "length (format (parsePrecision p)) \<le> length (format p)"
proof (cases "format p")
  case Nil
  then show ?thesis by (simp add: parsePrecision_def)
next
  case (Cons c s)
  show ?thesis
  proof (cases "c = CHR ''.'' \<and> s \<noteq> []")
    case False
    with Cons show ?thesis by (auto simp: parsePrecision_def)
  next
    case True
    let ?p1 = "argNumber (p\<lparr>format := s, goodArgNum := (goodArgNum p \<and> \<not> afterIndex p)\<rparr>)"
    have l1: "length (format ?p1) \<le> length s"
      using argNumber_len [of "p\<lparr>format := s, goodArgNum := (goodArgNum p \<and> \<not> afterIndex p)\<rparr>"]
      by simp
    then show ?thesis
      using Cons True
      by (auto simp: parsePrecision_def Let_def dest: parsenum_len
          split: list.splits prod.splits option.splits)
  qed
qed

lemma directive_len: "length (snd (directive f)) \<le> length f"
proof -
  let ?p0 = "\<lparr>goodArgNum = True, afterIndex = False, format = dropWhile isFlag f, buf = []\<rparr>"
  let ?p1 = "parsePrecision (parseWidth (argNumber ?p0))"
  let ?p2 = "if afterIndex ?p1 then ?p1 else argNumber ?p1"
  have "length (format ?p0) \<le> length f" by (simp add: length_dropWhile_le)
  moreover have "length (format ?p1) \<le> length (format ?p0)"
    using parsePrecision_len [of "parseWidth (argNumber ?p0)"] parseWidth_len [of "argNumber ?p0"]
      argNumber_len [of ?p0] by linarith
  moreover have "length (format ?p2) \<le> length (format ?p1)"
    using argNumber_len [of ?p1] by simp
  ultimately have l: "length (format ?p2) \<le> length f" by linarith
  show ?thesis
  proof (cases "format ?p2")
    case Nil
    then show ?thesis by (simp add: directive_def Let_def)
  next
    case (Cons c s)
    have "length (snd (decodeVerb (c # s))) \<le> length (c # s)"
      by (auto simp: decodeVerb_def split: option.splits)
    with Cons l show ?thesis
      by (auto simp: directive_def Let_def split: prod.splits)
  qed
qed

function doPrintf :: "string \<Rightarrow> string" where
  "doPrintf [] = []"
| "doPrintf (c # f) =
     (if c \<noteq> CHR ''%'' then c # doPrintf f
      else (case directive f of (printed, f') \<Rightarrow> printed @ doPrintf f'))"
  by pat_completeness auto
termination
proof (relation "measure length", goal_cases)
  case 1
  show ?case by simp
next
  case (2 c f)
  then show ?case by simp
next
  case (3 c f x y)
  then have "y = snd (directive f)" by (metis snd_conv)
  then show ?case using directive_len [of f] by simp
qed

section \<open>Configuration, connections and observable events\<close>

text \<open>
  \<open>Config\<close> flattens the two nested structs of the source. An \<open>IRCConnection\<close> is
  built once per successful dial and its fields are never assigned again; \<open>conn\<close>
  identifies the TCP connection (the n-th successful dial). The mutex is not a field of
  the model: the model runs one operation at a time.

  What the program does to the outside is a list of events, in program order:
  \<open>Dial\<close> is a call of \<open>net.Dial\<close>, \<open>Write c b\<close> one \<open>Write\<close> of the bytes \<open>b\<close> on
  connection \<open>c\<close>, \<open>Post m u\<close> a call \<open>postToSlack(m, u)\<close> (JSON encoding and HTTP
  delivery are behind it), \<open>Ready\<close> the send on the readiness channel, \<open>Log\<close> a line
  of the log and \<open>Sleep\<close> a call of \<open>time.Sleep\<close>. The echo of every line and
  of every payload to the console is not an event.
\<close>

record Config =
  Server :: string
  Channel :: string
  Nickname :: string
  WebhookURL :: string
  ListenAddress :: string
  APIToken :: string
  IgnoreBots :: bool
  IgnoreUsers :: "string list"

record IRCConnection =
  conn :: nat
  config :: Config

datatype event =
    Dial string
  | Write nat string
  | Post string string
  | Ready IRCConnection
  | Log string
  | Sleep int

definition postToSlack :: "string \<Rightarrow> string \<Rightarrow> event list" where
  "postToSlack message slackWebhookURL = [Post message slackWebhookURL]"

definition Fprintf :: "nat \<Rightarrow> string \<Rightarrow> event list" where
  "Fprintf c fmt = [Write c (doPrintf fmt)]"

definition handleMessage :: "string \<Rightarrow> IRCConnection \<Rightarrow> string \<Rightarrow> error + event list" where
  "handleMessage message ircConn slackWebhookURL =
     (if HasPrefix message ''PING'' then
        (let response = Replace1 message ''PING'' ''PONG''
         in Inr (Fprintf (conn ircConn) response))
      else if Contains message ''JOIN'' then
        (case extractNickname message of
           Inl e \<Rightarrow> Inl e
         | Inr nickname \<Rightarrow>
             Inr (postToSlack (''*'' @ nickname @ '' has joined the channel*'') slackWebhookURL))
      else if Contains message ''PART'' then
        (case extractNickname message of
           Inl e \<Rightarrow> Inl e
         | Inr nickname \<Rightarrow>
             Inr (postToSlack (''*'' @ nickname @ '' has left the channel*'') slackWebhookURL))
      else if Contains message ''PRIVMSG'' \<and> Contains message ''ACTION'' then
        (case extractNickname message of
           Inl e \<Rightarrow> Inl e
         | Inr nickname \<Rightarrow>
             (case extractActionMessage message of
                Inl e \<Rightarrow> Inl e
              | Inr actionMessage \<Rightarrow>
                  Inr (postToSlack (''_'' @ nickname @ '' '' @ actionMessage @ ''_'')
                         slackWebhookURL)))
      else if Contains message ''PRIVMSG'' then
        (case extractNickname message of
           Inl e \<Rightarrow> Inl e
         | Inr nickname \<Rightarrow>
             (case extractIRCMessage message of
                Inl e \<Rightarrow> Inl e
              | Inr ircMessage \<Rightarrow>
                  Inr (postToSlack (''<'' @ nickname @ ''> '' @ ircMessage) slackWebhookURL)))
      else Inr [])"

text \<open>
  The branch \<open>handleMessage\<close> takes, as a category of the line: the tests are tried in
  the order of the source and the first that holds decides.
\<close>

datatype category = PING | JOIN | PART | ACTION | PRIVMSG | Ignorable

definition classify :: "string \<Rightarrow> category" where
  "classify message =
     (if HasPrefix message ''PING'' then PING
      else if Contains message ''JOIN'' then JOIN
      else if Contains message ''PART'' then PART
      else if Contains message ''PRIVMSG'' \<and> Contains message ''ACTION'' then ACTION
      else if Contains message ''PRIVMSG'' then PRIVMSG
      else Ignorable)"

text \<open>A sample configuration, for evaluating the model on concrete inputs.\<close>

definition cfg0 :: Config where
  "cfg0 = \<lparr>Server = ''irc.example.net:6667'', Channel = ''#chan'', Nickname = ''bridge'',
           WebhookURL = ''https://hooks.example/T'', ListenAddress = '':3000'',
           APIToken = ''xoxb-1'', IgnoreBots = True, IgnoreUsers = [''U9'']\<rparr>"

section \<open>Identity cache\<close>

text \<open>
  The cache is the global map \<open>userCache\<close>. A \<open>time.Time\<close> is a number of
  nanoseconds. What the program cannot decide by itself comes from the environment
  \<open>env\<close>: the k-th reading of the clock, whether \<open>http.NewRequest\<close> accepts the URL
  built for a user id, the reply to the k-th call of \<open>users.info\<close> (a transport error,
  a body that does not decode, or the decoded \<open>ok\<close>, \<open>display_name\<close> and
  \<open>real_name\<close>), whether the k-th write of the webhook handler succeeds, whether the
  k-th dial succeeds, and what the j-th \<open>ReadString\<close> on a connection returns
  (\<open>None\<close> is a read error). The \<open>world\<close> holds the cache and counts the calls made
  so far; \<open>lookups\<close> is the number of requests sent to the remote API.
\<close>

record UserCache =
  displayName :: string
  expiration :: int

datatype api_reply =
    TransportError
  | DecodeError
  | Reply bool string string

record env =
  now :: "nat \<Rightarrow> int"
  newRequestOk :: "string \<Rightarrow> bool"
  usersInfo :: "nat \<Rightarrow> string \<Rightarrow> string \<Rightarrow> api_reply"
  writeOk :: "nat \<Rightarrow> bool"
  dialOk :: "nat \<Rightarrow> bool"
  readString :: "nat \<Rightarrow> nat \<Rightarrow> string option"

record world =
  userCache :: "string \<rightharpoonup> UserCache"
  clockReads :: nat
  lookups :: nat
  writes :: nat

definition cacheDuration :: int where
  "cacheDuration = 1 * (60 * 60 * 1000000000)"

text \<open>
  \<open>getUserDisplayName\<close> in two parts: the cache check, and \<open>fetchUser\<close>, the rest of
  the function after a miss. The clock is read only when an entry exists (the \<open>&&\<close>
  of the source evaluates \<open>time.Now()\<close> second), and again when the result is stored.
\<close>

definition fetchUser :: "env \<Rightarrow> string \<Rightarrow> Config \<Rightarrow> world \<Rightarrow> string \<times> world" where
  "fetchUser e userID cfg w =
     (if \<not> newRequestOk e userID then (userID, w)
      else
        (let w1 = w\<lparr>lookups := lookups w + 1\<rparr> in
         case usersInfo e (lookups w) (APIToken cfg) userID of
           TransportError \<Rightarrow> (userID, w1)
         | DecodeError \<Rightarrow> (userID, w1)
         | Reply ok display_name real_name \<Rightarrow>
             (if \<not> ok then (userID, w1)
              else
                (let name = display_name;
                     name = (if name = [] then real_name else name);
                     name = (if name = [] then userID else name);
                     t = now e (clockReads w1)
                 in (name,
                     w1\<lparr>clockReads := clockReads w1 + 1,
                        userCache := (userCache w1)
                          (userID \<mapsto> \<lparr>displayName = name, expiration = t + cacheDuration\<rparr>)\<rparr>)))))"

definition getUserDisplayName :: "env \<Rightarrow> string \<Rightarrow> Config \<Rightarrow> world \<Rightarrow> string \<times> world" where
  "getUserDisplayName e userID cfg w =
     (case userCache w userID of
        None \<Rightarrow> fetchUser e userID cfg w
      | Some cache \<Rightarrow>
          (let w1 = w\<lparr>clockReads := clockReads w + 1\<rparr> in
           if now e (clockReads w) < expiration cache then (displayName cache, w1)
           else fetchUser e userID cfg w1))"




text \<open>
  \<open>translateMentions\<close>: \<open>ReplaceAllStringFunc\<close> with the pattern
  \<open><@(U[A-Z0-9]+)>\<close> replaces the leftmost matches, one after the other, each by
  \<open>@\<close> and the resolved name. \<open>matchMention\<close> is a match of the pattern at the head
  of a string: the user id and the text after the match.
\<close>

definition isIDChar :: "char \<Rightarrow> bool" where
  "isIDChar c = ((byte CHR ''A'' \<le> byte c \<and> byte c \<le> byte CHR ''Z'') \<or> isDigit c)"

definition matchMention :: "string \<Rightarrow> (string \<times> string) option" where
  "matchMention s =
     (if prefix ''<@U'' s then
        (let r = drop 3 s; run = takeWhile isIDChar r; after = dropWhile isIDChar r
         in if run \<noteq> [] \<and> prefix ''>'' after then Some (''U'' @ run, drop 1 after)
            else None)
      else None)"

lemma matchMention_shorter: "matchMention s = Some (u, r) \<Longrightarrow> length r < length s"
proof -
  assume a: "matchMention s = Some (u, r)"
  then have r: "r = drop 1 (dropWhile isIDChar (drop 3 s))" and p: "prefix ''<@U'' s"
    by (auto simp: matchMention_def Let_def split: if_splits)
  from p have "3 \<le> length s" by (auto simp: prefix_def)
  moreover have "length (dropWhile isIDChar (drop 3 s)) \<le> length (drop 3 s)"
    by (rule length_dropWhile_le)
  ultimately show ?thesis using r by simp
qed

function translateMentions :: "env \<Rightarrow> string \<Rightarrow> Config \<Rightarrow> world \<Rightarrow> string \<times> world" where
  "translateMentions e [] cfg w = ([], w)"
| "translateMentions e (c # s) cfg w =
     (case matchMention (c # s) of
        Some (userID, r) \<Rightarrow>
          (case getUserDisplayName e userID cfg w of
             (name, w1) \<Rightarrow>
               (case translateMentions e r cfg w1 of
                  (t, w2) \<Rightarrow> (''@'' @ name @ t, w2)))
      | None \<Rightarrow>
          (case translateMentions e s cfg w of
             (t, w1) \<Rightarrow> (c # t, w1)))"
  by pat_completeness auto
termination
  by (relation "measure (\<lambda>(e, s, cfg, w). length s)") (auto dest: matchMention_shorter)

section \<open>Inbound webhook handler\<close>

text \<open>
  A request is its method and the outcome of decoding its body into a \<open>SlackEvent\<close>
  (\<open>None\<close> when the decoder returns an error). A response is the status code and the
  bytes written to the body. \<open>http.Error\<close> writes the message and a line feed; a
  \<open>Write\<close> without a \<open>WriteHeader\<close> before it sends status 200.
\<close>

record SlackEvent =
  Type :: string
  Challenge :: string
  Event_Type :: string
  Event_User :: string
  Event_Text :: string
  Event_Channel :: string
  Event_BotID :: string
  Event_Subtype :: string

record Request =
  Method :: string
  Body :: "SlackEvent option"

record Response =
  StatusCode :: nat
  Written :: string

definition shouldProcessMessage :: "SlackEvent \<Rightarrow> Config \<Rightarrow> bool" where
  "shouldProcessMessage event cfg =
     (if Event_Subtype event \<noteq> [] then False
      else if IgnoreBots cfg \<and> Event_BotID event \<noteq> [] then False
      else if Event_User event \<in> set (IgnoreUsers cfg) then False
      else True)"

definition httpError :: "string \<Rightarrow> nat \<Rightarrow> Response" where
  "httpError msg code = \<lparr>StatusCode = code, Written = msg @ [LF]\<rparr>"

definition createWebhookHandler ::
  "IRCConnection \<Rightarrow> env \<Rightarrow> Request \<Rightarrow> world \<Rightarrow> Response \<times> event list \<times> world" where
  "createWebhookHandler ircConn e r w =
     (if Method r \<noteq> ''POST'' then (httpError ''Method not allowed'' 405, [], w)
      else case Body r of
        None \<Rightarrow> (httpError ''Bad request'' 400, [], w)
      | Some event \<Rightarrow>
          (if Type event = ''url_verification''
           then (\<lparr>StatusCode = 200, Written = Challenge event\<rparr>, [], w)
           else if Type event = ''event_callback'' \<and> Event_Type event = ''message'' then
             (if \<not> shouldProcessMessage event (config ircConn)
              then (\<lparr>StatusCode = 200, Written = []\<rparr>, [], w)
              else
                (case getUserDisplayName e (Event_User event) (config ircConn) w of
                   (displayName', w1) \<Rightarrow>
                     (case translateMentions e (Event_Text event) (config ircConn) w1 of
                        (translatedText, w2) \<Rightarrow>
                          (let ircMessage = ''PRIVMSG '' @ Channel (config ircConn) @ '' :<''
                                 @ displayName' @ ''> '' @ translatedText @ [CR, LF];
                               evs = Fprintf (conn ircConn) ircMessage;
                               w3 = w2\<lparr>writes := writes w2 + 1\<rparr>
                           in if \<not> writeOk e (writes w2)
                              then (httpError ''Internal server error'' 500, evs, w3)
                              else (\<lparr>StatusCode = 200, Written = ''ok''\<rparr>, evs, w3)))))
           else (\<lparr>StatusCode = 200, Written = ''ok''\<rparr>, [], w)))"

section \<open>IRC session manager\<close>

text \<open>
  \<open>manageIRCConnection\<close> never returns: it is run for a number of steps. A step is
  what the loop does between two calls that wait for the environment: from a call of
  \<open>net.Dial\<close> to the next wait, or from a call of \<open>ReadString\<close> to the next wait.
  \<open>AtDial\<close> and \<open>AtRead\<close> are the two places where it waits; \<open>Exited\<close> is the
  process after \<open>log.Fatalf\<close>, \<open>Crashed\<close> the process after a panic. The local
  variable \<open>ircConn\<close> is the connection of \<open>AtRead\<close>. \<open>dials\<close>, \<open>conns\<close> and
  \<open>reads\<close> count the dials, the connections and the lines read on the current
  connection so far: they say which answer of the environment comes next.
\<close>

datatype phase = AtDial | AtRead IRCConnection | Exited | Crashed

record manager =
  phase :: phase
  firstConnection :: bool
  dials :: nat
  conns :: nat
  reads :: nat

definition manager0 :: manager where
  "manager0 = \<lparr>phase = AtDial, firstConnection = True, dials = 0, conns = 0, reads = 0\<rparr>"

definition step :: "env \<Rightarrow> Config \<Rightarrow> manager \<Rightarrow> manager \<times> event list" where
  "step e cfg m =
     (case phase m of
        AtDial \<Rightarrow>
          (if \<not> dialOk e (dials m) then
             (if firstConnection m
              then (m\<lparr>phase := Exited, dials := dials m + 1\<rparr>,
                    [Dial (Server cfg), Log ''Failed to connect to IRC server'',
                     Log ''Failed to establish initial IRC connection''])
              else (m\<lparr>dials := dials m + 1\<rparr>,
                    [Dial (Server cfg), Log ''Failed to connect to IRC server'']))
           else
             (let ircConn = \<lparr>conn = conns m, config = cfg\<rparr> in
              (m\<lparr>phase := AtRead ircConn, firstConnection := False, dials := dials m + 1,
                 conns := conns m + 1, reads := 0\<rparr>,
               [Dial (Server cfg),
                Write (conns m) (''NICK '' @ Nickname cfg @ [CR, LF]),
                Write (conns m) (''USER '' @ Nickname cfg @ '' 8 * :'' @ Nickname cfg @ [CR, LF]),
                Write (conns m) (''JOIN '' @ Channel cfg @ [CR, LF])]
               @ (if firstConnection m then [Ready ircConn] else []))))
      | AtRead ircConn \<Rightarrow>
          (case readString e (conn ircConn) (reads m) of
             None \<Rightarrow>
               (m\<lparr>phase := AtDial\<rparr>,
                [Log ''Error reading from IRC'', Log ''IRC connection lost, reconnecting...''])
           | Some message \<Rightarrow>
               (case handleMessage message ircConn (WebhookURL cfg) of
                  Inl err \<Rightarrow> (m\<lparr>phase := Crashed\<rparr>, [])
                | Inr evs \<Rightarrow> (m\<lparr>reads := reads m + 1\<rparr>, evs)))
      | Exited \<Rightarrow> (m, [])
      | Crashed \<Rightarrow> (m, []))"

fun manageIRCConnection :: "env \<Rightarrow> Config \<Rightarrow> nat \<Rightarrow> manager \<times> event list" where
  "manageIRCConnection e cfg 0 = (manager0, [])"
| "manageIRCConnection e cfg (Suc n) =
     (case manageIRCConnection e cfg n of
        (m, evs) \<Rightarrow> (case step e cfg m of (m', evs') \<Rightarrow> (m', evs @ evs')))"

text \<open>
  \<open>main\<close> receives one connection from the readiness channel and builds the handler
  from it: the connection of the first \<open>Ready\<close> event.
\<close>

fun firstReady :: "event list \<Rightarrow> IRCConnection option" where
  "firstReady [] = None"
| "firstReady (Ready c # evs) = Some c"
| "firstReady (ev # evs) = firstReady evs"

definition mainHandler ::
  "event list \<Rightarrow> (env \<Rightarrow> Request \<Rightarrow> world \<Rightarrow> Response \<times> event list \<times> world) option" where
  "mainHandler evs = map_option createWebhookHandler (firstReady evs)"

text \<open>
  The reconnect policy in the words of the specification, as a property of a trace: a
  dial that is not the first event of the trace comes right after a sleep.
\<close>

fun retryDelayed :: "event list \<Rightarrow> bool" where
  "retryDelayed [] = True"
| "retryDelayed [ev] = True"
| "retryDelayed (Sleep d # Dial s # evs) = retryDelayed (Dial s # evs)"
| "retryDelayed (ev # Dial s # evs) = False"
| "retryDelayed (ev # ev' # evs) = retryDelayed (ev' # evs)"

text \<open>Sample environments, worlds and requests, for evaluating the model.\<close>

definition env0 :: env where
  "env0 = \<lparr>now = (\<lambda>k. int k * 1000000000),
           newRequestOk = (\<lambda>u. True),
           usersInfo = (\<lambda>k token u. if u = ''U1'' then Reply True ''alice'' ''Alice A''
                                    else if u = ''U2'' then Reply True [] ''Bob B''
                                    else Reply False [] []),
           writeOk = (\<lambda>k. True),
           dialOk = (\<lambda>k. True),
           readString = (\<lambda>c j. None)\<rparr>"

definition world0 :: world where
  "world0 = \<lparr>userCache = Map.empty, clockReads = 0, lookups = 0, writes = 0\<rparr>"

definition env1 :: env where
  \<comment> \<open>the first connection is lost at once, the next dial fails, the one after succeeds\<close>
  "env1 = env0\<lparr>dialOk := (\<lambda>k. k \<noteq> 1)\<rparr>"

definition slack_message :: "string \<Rightarrow> string \<Rightarrow> SlackEvent" where
  "slack_message user body =
     \<lparr>Type = ''event_callback'', Challenge = [], Event_Type = ''message'',
      Event_User = user, Event_Text = body, Event_Channel = ''C1'',
      Event_BotID = [], Event_Subtype = []\<rparr>"

definition message_event :: "string \<Rightarrow> string \<Rightarrow> Request" where
  "message_event user body = \<lparr>Method = ''POST'', Body = Some (slack_message user body)\<rparr>"

definition env2 :: env where
  \<comment> \<open>no dial ever succeeds\<close>
  "env2 = env0\<lparr>dialOk := (\<lambda>k. False)\<rparr>"

definition env3 :: env where
  \<comment> \<open>the server sends a line that starts with an exclamation mark\<close>
  "env3 = env0\<lparr>readString := (\<lambda>c j. Some (''!nick JOIN #chan'' @ [CR, LF]))\<rparr>"

text \<open>A message event, as the handler tests for it.\<close>

definition isMessageEvent :: "SlackEvent \<Rightarrow> bool" where
  "isMessageEvent event = (Type event = ''event_callback'' \<and> Event_Type event = ''message'')"

text \<open>
  Two invariants of the session manager, for the proofs below. \<open>started\<close>: the process
  has not exited, and \<open>firstConnection\<close> is still set only before the first dial.
  \<open>published\<close>: the connection sent on the readiness channel is the first one, and the
  connection being read is the latest one.
\<close>

definition started :: "manager \<Rightarrow> bool" where
  "started m = (phase m \<noteq> Exited \<and> (firstConnection m \<longrightarrow> phase m = AtDial \<and> dials m = 0))"

definition published :: "Config \<Rightarrow> manager \<times> event list \<Rightarrow> bool" where
  "published cfg s =
     (case s of (m, evs) \<Rightarrow>
        (if firstConnection m then conns m = 0 \<and> firstReady evs = None \<and> (\<forall>c. phase m \<noteq> AtRead c)
         else firstReady evs = Some \<lparr>conn = 0, config = cfg\<rparr>)
        \<and> (\<forall>c. phase m = AtRead c \<longrightarrow> conn c + 1 = conns m))"

text \<open>
  The shape of a channel message on the wire, \<open>:nick!user@host PRIVMSG #chan :text\<close>
  followed by the line terminator. \<open>uh\<close> is the user/host field \<open>user@host\<close>.
\<close>

definition privmsg_line :: "string \<Rightarrow> string \<Rightarrow> string \<Rightarrow> string \<Rightarrow> string" where
  "privmsg_line nick uh chan text =
     '':'' @ nick @ ''!'' @ uh @ '' PRIVMSG #'' @ chan @ '' :'' @ text @ [CR, LF]"

section \<open>Facts about the string functions\<close>

lemma Index_ge: "- 1 \<le> Index s sep"
  by (induction s) (auto simp: Let_def)

lemma Index_le: "Index s sep \<le> int (length s)"
  by (induction s) (auto simp: Let_def)

lemma Index_neg_iff: "Index s sep < 0 \<longleftrightarrow> Index s sep = - 1"
  using Index_ge [of s sep] by arith

lemma Index_skip:
  assumes "c \<notin> set a"
  shows "Index (a @ c # r) (c # sep') =
           (if prefix sep' r then int (length a)
            else (let i = Index r (c # sep') in
                  if i < 0 then - 1 else int (length a) + 1 + i))"
  using assms
proof (induction a)
  case Nil
  then show ?case by (simp add: Let_def)
next
  case (Cons x a)
  then have "x \<noteq> c" and "c \<notin> set a" by auto
  with Cons.IH show ?case
    using Index_ge [of r "c # sep'"] by (auto simp: Let_def)
qed

lemma Index_first:
  assumes "c \<notin> set a"
  shows "Index (a @ (c # sep') @ b) (c # sep') = int (length a)"
  using Index_skip [OF assms, of "sep' @ b" sep'] by simp

lemma Index_found_bound:
  "0 \<le> Index s sep \<Longrightarrow> Index s sep + int (length sep) \<le> int (length s)"
proof (induction s)
  case Nil
  then show ?case by (simp split: if_splits)
next
  case (Cons c s)
  show ?case
  proof (cases "prefix sep (c # s)")
    case True
    from prefix_length_le [OF True] show ?thesis
      using True by simp
  next
    case False
    with Cons show ?thesis
      by (auto simp: Let_def split: if_splits)
  qed
qed

lemma TrimRight_CRLF:
  assumes "text = [] \<or> last text \<notin> {CR, LF}"
  shows "TrimRight (text @ [CR, LF]) [CR, LF] = text"
proof (cases "text = []")
  case True
  then show ?thesis by (simp add: TrimRight_def)
next
  case False
  then obtain ys y where t: "text = ys @ [y]"
    by (metis append_butlast_last_id)
  with assms have "y \<noteq> CR" "y \<noteq> LF" by auto
  with t show ?thesis by (simp add: TrimRight_def)
qed

lemma slice_from_drop:
  "0 \<le> lo \<Longrightarrow> lo \<le> int (length s) \<Longrightarrow> slice_from s lo = Inr (drop (nat lo) s)"
  by (simp add: slice_from_def slice_def)

lemma extractNickname_panics_iff:
  "extractNickname m = Inl Panic \<longleftrightarrow> HasPrefix m ''!''"
proof (cases m)
  case Nil
  then show ?thesis by (simp add: extractNickname_def HasPrefix_def)
next
  case (Cons c s)
  show ?thesis
  proof (cases "c = CHR ''!''")
    case True
    with Cons show ?thesis
      by (simp add: extractNickname_def HasPrefix_def slice_def)
  next
    case False
    have "Index s ''!'' \<le> int (length s)" by (rule Index_le)
    with False Cons show ?thesis
      using Index_ge [of s "''!''"]
      by (auto simp: extractNickname_def HasPrefix_def slice_def Let_def)
  qed
qed

lemma Index_occurrence:
  "0 \<le> Index s sep \<Longrightarrow> prefix sep (drop (nat (Index s sep)) s)"
proof (induction s)
  case Nil
  then show ?case by (simp split: if_splits)
next
  case (Cons c s)
  show ?case
  proof (cases "prefix sep (c # s)")
    case True
    then show ?thesis by simp
  next
    case False
    with Cons.prems have nn: "0 \<le> Index s sep" by (simp add: Let_def split: if_splits)
    with False have "Index (c # s) sep = Index s sep + 1" by (simp add: Let_def)
    moreover from nn have "nat (Index s sep + 1) = Suc (nat (Index s sep))" by simp
    ultimately show ?thesis using Cons.IH [OF nn] by simp
  qed
qed

lemma extractActionMessage_panics_iff:
  "extractActionMessage m = Inl Panic \<longleftrightarrow> int (length m) < Index m ''ACTION'' + 7"
proof -
  let ?start = "Index m ''ACTION'' + 7"
  have nn: "0 \<le> ?start" using Index_ge [of m "''ACTION''"] by simp
  show ?thesis
  proof (cases "?start \<le> int (length m)")
    case False
    then show ?thesis by (simp add: extractActionMessage_def slice_from_def slice_def)
  next
    case True
    let ?tail = "drop (nat ?start) m"
    have s: "slice_from m ?start = Inr ?tail" using nn True by (rule slice_from_drop)
    have e1: "- 1 \<le> Index ?tail [SOH]" by (rule Index_ge)
    have e2: "Index ?tail [SOH] \<le> int (length ?tail)" by (rule Index_le)
    from True nn have "int (length ?tail) = int (length m) - ?start" by simp
    with e2 have "Index ?tail [SOH] \<le> int (length m) - ?start" by (simp only:)
    then have "?start + Index ?tail [SOH] \<le> int (length m)" by arith
    with e1 nn True s show ?thesis
      by (auto simp: extractActionMessage_def slice_def Let_def)
  qed
qed

lemma extractIRCMessage_total: "\<exists>t. extractIRCMessage m = Inr t"
proof (cases "Index m '' PRIVMSG '' = - 1")
  case True
  then show ?thesis by (simp add: extractIRCMessage_def)
next
  case False
  then have nn: "0 \<le> Index m '' PRIVMSG ''"
    using Index_ge [of m "'' PRIVMSG ''"] by arith
  from Index_found_bound [OF nn]
  have b: "Index m '' PRIVMSG '' + 9 \<le> int (length m)" by simp
  define rest where "rest = drop (nat (Index m '' PRIVMSG '' + 9)) m"
  have s1: "slice_from m (Index m '' PRIVMSG '' + 9) = Inr rest"
    unfolding rest_def using nn b by (intro slice_from_drop) auto
  show ?thesis
  proof (cases "Index rest '' :'' = - 1")
    case True
    with False s1 show ?thesis by (simp add: extractIRCMessage_def)
  next
    case c: False
    then have nn2: "0 \<le> Index rest '' :''"
      using Index_ge [of rest "'' :''"] by arith
    from Index_found_bound [OF nn2]
    have b2: "Index rest '' :'' + 2 \<le> int (length rest)" by simp
    have "slice_from rest (Index rest '' :'' + 2) = Inr (drop (nat (Index rest '' :'' + 2)) rest)"
      using nn2 b2 by (intro slice_from_drop) auto
    with False c s1 show ?thesis by (simp add: extractIRCMessage_def)
  qed
qed

lemma slice_from_append:
  "lo = int (length a) \<Longrightarrow> slice_from (a @ b) lo = Inr b"
  by (simp add: slice_from_def slice_def)

lemma not_Contains: "\<not> Contains m sep \<Longrightarrow> Index m sep = - 1"
  using Index_ge [of m sep] by (simp add: Contains_def)

section \<open>Extraction on well-formed channel messages\<close>

lemma extractNickname_privmsg:
  assumes "CHR ''!'' \<notin> set nick"
  shows "extractNickname (privmsg_line nick uh chan text) = Inr nick"
proof -
  let ?b = "uh @ '' PRIVMSG #'' @ chan @ '' :'' @ text @ [CR, LF]"
  have a: "CHR ''!'' \<notin> set ('':'' @ nick)" using assms by simp
  have "Index (('':'' @ nick) @ (CHR ''!'' # []) @ ?b) (CHR ''!'' # []) = int (length ('':'' @ nick))"
    by (rule Index_first [OF a])
  then have i: "Index (privmsg_line nick uh chan text) ''!'' = 1 + int (length nick)"
    by (simp add: privmsg_line_def)
  show ?thesis
    unfolding extractNickname_def i Let_def
    by (simp add: slice_def privmsg_line_def)
qed

lemma extractIRCMessage_privmsg:
  assumes "CHR '' '' \<notin> set nick" "CHR '' '' \<notin> set uh" "CHR '' '' \<notin> set chan"
    and "text = [] \<or> last text \<notin> {CR, LF}"
  shows "extractIRCMessage (privmsg_line nick uh chan text) = Inr text"
proof -
  let ?a = "'':'' @ nick @ ''!'' @ uh"
  let ?rest = "''#'' @ chan @ '' :'' @ text @ [CR, LF]"
  have L: "privmsg_line nick uh chan text = (?a @ '' PRIVMSG '') @ ?rest"
    by (simp add: privmsg_line_def)
  have a: "CHR '' '' \<notin> set ?a" using assms by simp
  have "Index (?a @ (CHR '' '' # ''PRIVMSG '') @ ?rest) (CHR '' '' # ''PRIVMSG '') = int (length ?a)"
    by (rule Index_first [OF a])
  then have i: "Index (privmsg_line nick uh chan text) '' PRIVMSG '' = int (length ?a)"
    by (simp add: privmsg_line_def)
  have s: "slice_from (privmsg_line nick uh chan text)
             (int (length ?a) + int (length '' PRIVMSG '')) = Inr ?rest"
    unfolding L by (rule slice_from_append) simp
  have c: "CHR '' '' \<notin> set (''#'' @ chan)" using assms by simp
  have "Index ((''#'' @ chan) @ (CHR '' '' # '':'') @ (text @ [CR, LF])) (CHR '' '' # '':'')
          = int (length (''#'' @ chan))"
    by (rule Index_first [OF c])
  then have j: "Index ?rest '' :'' = 1 + int (length chan)" by simp
  have "slice_from ((''#'' @ chan @ '' :'') @ (text @ [CR, LF])) (1 + int (length chan) + 2)
          = Inr (text @ [CR, LF])"
    by (rule slice_from_append) simp
  then have s2: "slice_from ?rest (1 + int (length chan) + 2) = Inr (text @ [CR, LF])"
    by simp
  show ?thesis
    unfolding extractIRCMessage_def i Let_def s
    using j s2 TrimRight_CRLF [OF assms(4)] by simp
qed

lemma extractIRCMessage_no_token:
  "\<not> Contains m '' PRIVMSG '' \<Longrightarrow> extractIRCMessage m = Inr []"
  by (simp add: extractIRCMessage_def not_Contains)

lemma extractIRCMessage_no_trailing:
  assumes "CHR '' '' \<notin> set a" and "\<not> Contains b '' :''"
  shows "extractIRCMessage (a @ '' PRIVMSG '' @ b) = Inr []"
proof -
  have "Index (a @ (CHR '' '' # ''PRIVMSG '') @ b) (CHR '' '' # ''PRIVMSG '') = int (length a)"
    by (rule Index_first [OF assms(1)])
  then have i: "Index (a @ '' PRIVMSG '' @ b) '' PRIVMSG '' = int (length a)" by simp
  have "slice_from ((a @ '' PRIVMSG '') @ b) (int (length a) + int (length '' PRIVMSG '')) = Inr b"
    by (rule slice_from_append) simp
  then have s: "slice_from (a @ '' PRIVMSG '' @ b) (int (length a) + int (length '' PRIVMSG '')) = Inr b"
    by simp
  show ?thesis
    unfolding extractIRCMessage_def i Let_def s
    using not_Contains [OF assms(2)] by simp
qed

text \<open>
  Claim C7. On the line \<open>:nick!user@host PRIVMSG #chan :text\<close> followed by the line
  terminator, nickname extraction returns exactly \<open>nick\<close> and chat-text extraction
  returns exactly \<open>text\<close>, without the terminator. The fields are fields of the IRC
  grammar: a nickname holds neither \<open>!\<close> nor a space, the user/host field and the
  channel hold no space, and the text does not itself end in a carriage return or a line
  feed. Colons are allowed everywhere, so an IPv6 address in the host does not change the
  result. Where the token \<open> PRIVMSG \<close> is absent, or no \<open> :\<close> follows it, the
  extracted text is empty.
\<close>

theorem extract_privmsg_fields:
  assumes "CHR ''!'' \<notin> set nick" and "CHR '' '' \<notin> set nick"
    and "CHR '' '' \<notin> set uh" and "CHR '' '' \<notin> set chan"
    and "text = [] \<or> last text \<notin> {CR, LF}"
  shows "extractNickname (privmsg_line nick uh chan text) = Inr nick
       \<and> extractIRCMessage (privmsg_line nick uh chan text) = Inr text
       \<and> (\<forall>m. \<not> Contains m '' PRIVMSG '' \<longrightarrow> extractIRCMessage m = Inr [])
       \<and> (\<forall>a b. CHR '' '' \<notin> set a \<and> \<not> Contains b '' :''
              \<longrightarrow> extractIRCMessage (a @ '' PRIVMSG '' @ b) = Inr [])"
proof (intro conjI allI impI)
  show "extractNickname (privmsg_line nick uh chan text) = Inr nick"
    using assms(1) by (rule extractNickname_privmsg)
  show "extractIRCMessage (privmsg_line nick uh chan text) = Inr text"
    using assms(2-5) by (rule extractIRCMessage_privmsg)
  show "extractIRCMessage m = Inr []" if "\<not> Contains m '' PRIVMSG ''" for m
    using that by (rule extractIRCMessage_no_token)
  show "extractIRCMessage (a @ '' PRIVMSG '' @ b) = Inr []"
    if "CHR '' '' \<notin> set a \<and> \<not> Contains b '' :''" for a b
    using that extractIRCMessage_no_trailing [of a b] by blast
qed

theorem extract_privmsg_fields_witness:
  "extractNickname (privmsg_line ''bob'' ''u@2001:db8::1'' ''chan'' ''see: this'') = Inr ''bob''
   \<and> extractIRCMessage (privmsg_line ''bob'' ''u@2001:db8::1'' ''chan'' ''see: this'')
        = Inr ''see: this''
   \<and> extractIRCMessage '':bob!u@h NOTICE #chan :hi'' = Inr []
   \<and> extractIRCMessage ('':bob!u@h'' @ '' PRIVMSG '' @ ''#chan'') = Inr []"
proof -
  have h1: "CHR ''!'' \<notin> set ''bob''" and h2: "CHR '' '' \<notin> set ''bob''"
    and h3: "CHR '' '' \<notin> set ''u@2001:db8::1''" and h4: "CHR '' '' \<notin> set ''chan''"
    and h5: "''see: this'' = [] \<or> last ''see: this'' \<notin> {CR, LF}"
    by simp_all
  have n1: "\<not> Contains '':bob!u@h NOTICE #chan :hi'' '' PRIVMSG ''"
    by (simp add: Contains_def)
  have n2: "CHR '' '' \<notin> set '':bob!u@h'' \<and> \<not> Contains ''#chan'' '' :''"
    by (simp add: Contains_def)
  from extract_privmsg_fields [OF h1 h2 h3 h4 h5] n1 n2 show ?thesis
    by blast
qed

text \<open>
  Claim C9. The extraction functions are not total: the slice expression
  \<open>message[1:prefixEnd]\<close> of nickname extraction is out of range when the first
  \<open>!\<close> is the first byte of the line (\<open>prefixEnd = 0\<close>), and the slice
  \<open>message[start:]\<close> of action extraction is out of range when fewer than one byte
  follows \<open>ACTION\<close> (\<open>start = len(message) + 1\<close>). Both panic. A line from the
  server that starts with \<open>!\<close> and holds JOIN takes the read loop into the first of
  the two, and the process with it.
\<close>

theorem extraction_out_of_range:
  "extractNickname (''!nick JOIN #chan'' @ [CR, LF]) = Inl Panic
   \<and> extractActionMessage ''ACTION'' = Inl Panic
   \<and> handleMessage (''!nick JOIN #chan'' @ [CR, LF]) \<lparr>conn = 0, config = cfg0\<rparr>
         (WebhookURL cfg0) = Inl Panic
   \<and> phase (fst (manageIRCConnection env3 cfg0 2)) = Crashed"
  by (simp add: extractNickname_def extractActionMessage_def slice_from_def slice_def
      handleMessage_def HasPrefix_def Contains_def eval_nat_numeral step_def manager0_def
      env3_def env0_def Let_def)

section \<open>The read loop's handling of one line\<close>

lemma doPrintf_trailing_dot: "doPrintf ''a%.'' = ''a%!.(MISSING)''"
  \<comment> \<open>a \<open>.\<close> that ends the format is the verb, not the start of a precision\<close>
  by (simp add: directive_def parseWidth_def parsePrecision_def argNumber_def isFlag_def
      decodeVerb_def byte_def isDigit_def Let_def)

lemma doPrintf_plain: "CHR ''%'' \<notin> set f \<Longrightarrow> doPrintf f = f"
  by (induction f) auto

lemma Index_prefix: "prefix sep s \<Longrightarrow> Index s sep = 0"
  by (cases s) auto

lemma Replace1_prefix: "Replace1 (old @ r) old new = new @ r"
  by (simp add: Replace1_def Index_prefix)

text \<open>A PING line without a \<open>%\<close> is answered with the same line, PONG for PING.\<close>

lemma pong_verbatim:
  assumes "HasPrefix message ''PING''" and "CHR ''%'' \<notin> set message"
  shows "handleMessage message ircConn url
           = Inr [Write (conn ircConn) (''PONG'' @ drop 4 message)]"
proof -
  from assms(1) obtain r where m: "message = ''PING'' @ r"
    by (auto simp: HasPrefix_def prefix_def)
  have "Replace1 (''PING'' @ r) ''PING'' ''PONG'' = ''PONG'' @ r" by (rule Replace1_prefix)
  moreover have "CHR ''%'' \<notin> set (''PONG'' @ r)" using assms(2) m by simp
  ultimately show ?thesis
    using assms(1) m doPrintf_plain [of "''PONG'' @ r"]
    by (simp add: handleMessage_def Fprintf_def)
qed

text \<open>
  A line as \<open>ReadString\<close> returns it ends in a line feed. Handling such a line panics
  only if the line starts with \<open>!\<close>.
\<close>

lemma ends_LF_not_at_end:
  assumes "0 \<le> Index m ''ACTION''" and "m \<noteq> []" and "last m = LF"
  shows "Index m ''ACTION'' + 7 \<le> int (length m)"
proof (rule ccontr)
  assume "\<not> Index m ''ACTION'' + 7 \<le> int (length m)"
  with Index_found_bound [OF assms(1)] have eq: "Index m ''ACTION'' + 6 = int (length m)" by simp
  let ?i = "nat (Index m ''ACTION'')"
  from Index_occurrence [OF assms(1)] obtain r where r: "drop ?i m = ''ACTION'' @ r"
    by (auto simp: prefix_def)
  from eq assms(1) have "length (drop ?i m) = 6" by simp
  with r have "r = []" by simp
  with r have d: "drop ?i m = ''ACTION''" by simp
  then have "last (drop ?i m) = CHR ''N''" by simp
  moreover from d have "?i < length m" by (metis drop_all leI list.distinct(1))
  ultimately have "last m = CHR ''N''" by (simp add: last_drop)
  with assms(3) show False by simp
qed

lemma handleMessage_safe:
  assumes "\<not> HasPrefix m ''!''" and "m \<noteq> []" and "last m = LF"
  shows "\<exists>evs. handleMessage m c url = Inr evs"
proof -
  from assms(1) have "extractNickname m \<noteq> Inl Panic" by (simp add: extractNickname_panics_iff)
  then obtain nick where n: "extractNickname m = Inr nick"
    by (cases "extractNickname m") (auto intro: error.exhaust)
  obtain body where b: "extractIRCMessage m = Inr body" using extractIRCMessage_total by blast
  have a: "\<exists>act. extractActionMessage m = Inr act" if "Contains m ''ACTION''"
  proof -
    from that have "0 \<le> Index m ''ACTION''" by (simp add: Contains_def)
    from ends_LF_not_at_end [OF this assms(2,3)]
    have "extractActionMessage m \<noteq> Inl Panic" by (simp add: extractActionMessage_panics_iff)
    then show ?thesis by (cases "extractActionMessage m") (auto intro: error.exhaust)
  qed
  show ?thesis
    using n b a by (auto simp: handleMessage_def Let_def)
qed

lemma classify_PRIVMSG_iff:
  "classify message = PRIVMSG \<longleftrightarrow>
     \<not> HasPrefix message ''PING'' \<and> \<not> Contains message ''JOIN'' \<and> \<not> Contains message ''PART''
     \<and> \<not> Contains message ''ACTION'' \<and> Contains message ''PRIVMSG''"
  by (auto simp: classify_def)

text \<open>
  The category of a line is unique: the tests are a cascade and the first that holds
  decides. A line is in the category of plain chat messages when it does not start with
  PING, holds none of JOIN, PART and ACTION anywhere, and holds PRIVMSG. For every such
  line on which nickname extraction returns a nickname, chat-text extraction returns a
  text, exactly \<open><nickname> text\<close> is forwarded, and nothing else happens.
\<close>

lemma plain_privmsg_forwarded:
  assumes "classify message = PRIVMSG" and "extractNickname message = Inr nickname"
  shows "(\<exists>body. extractIRCMessage message = Inr body
            \<and> handleMessage message ircConn url = Inr [Post (''<'' @ nickname @ ''> '' @ body) url])
       \<and> \<not> HasPrefix message ''PING'' \<and> \<not> Contains message ''JOIN''
       \<and> \<not> Contains message ''PART'' \<and> \<not> Contains message ''ACTION''
       \<and> Contains message ''PRIVMSG''
       \<and> (\<exists>!k. classify message = k)"
proof -
  from assms(1) have c: "\<not> HasPrefix message ''PING''" "\<not> Contains message ''JOIN''"
    "\<not> Contains message ''PART''" "\<not> Contains message ''ACTION''" "Contains message ''PRIVMSG''"
    by (simp_all add: classify_PRIVMSG_iff)
  obtain body where t: "extractIRCMessage message = Inr body"
    using extractIRCMessage_total by blast
  have "handleMessage message ircConn url = Inr [Post (''<'' @ nickname @ ''> '' @ body) url]"
    using c assms(2) t by (simp add: handleMessage_def postToSlack_def)
  with t c show ?thesis by blast
qed

lemma plain_privmsg_forwarded_example:
  "classify (privmsg_line ''bob'' ''u@h'' ''chan'' ''hello there'') = PRIVMSG
   \<and> extractNickname (privmsg_line ''bob'' ''u@h'' ''chan'' ''hello there'') = Inr ''bob''
   \<and> handleMessage (privmsg_line ''bob'' ''u@h'' ''chan'' ''hello there'')
         \<lparr>conn = 0, config = cfg0\<rparr> (WebhookURL cfg0)
       = Inr [Post ''<bob> hello there'' (WebhookURL cfg0)]"
proof -
  let ?m = "privmsg_line ''bob'' ''u@h'' ''chan'' ''hello there''"
  have h1: "classify ?m = PRIVMSG"
    by (simp add: classify_def privmsg_line_def HasPrefix_def Contains_def)
  have h2: "extractNickname ?m = Inr ''bob''"
    by (simp add: extractNickname_def privmsg_line_def slice_def)
  have h3: "extractIRCMessage ?m = Inr ''hello there''"
    by (simp add: extractIRCMessage_def privmsg_line_def slice_def slice_from_def TrimRight_def)
  from plain_privmsg_forwarded [OF h1 h2, of "\<lparr>conn = 0, config = cfg0\<rparr>" "WebhookURL cfg0"]
  obtain body where "extractIRCMessage ?m = Inr body"
    and "handleMessage ?m \<lparr>conn = 0, config = cfg0\<rparr> (WebhookURL cfg0)
           = Inr [Post (''<'' @ ''bob'' @ ''> '' @ body) (WebhookURL cfg0)]"
    by blast
  with h3 have "handleMessage ?m \<lparr>conn = 0, config = cfg0\<rparr> (WebhookURL cfg0)
                  = Inr [Post ''<bob> hello there'' (WebhookURL cfg0)]"
    by simp
  with h1 h2 show ?thesis by blast
qed

text \<open>
  Claim C3: every line that is a plain PRIVMSG is forwarded as \<open><nickname> text\<close>,
  with the nickname and the text that the extraction functions produce on it. Two lines
  on which this fails. A chat message whose text holds the word JOIN is a PRIVMSG of
  the protocol, and both extractions return on it, but the test for JOIN comes first and
  looks at the whole line: a join is announced instead. A line that starts with \<open>!\<close>
  and holds PRIVMSG is in the category of plain chat messages, but nickname extraction
  panics on it and nothing is forwarded.
\<close>

theorem plain_privmsg_not_forwarded:
  "extractNickname (privmsg_line ''bob'' ''u@h'' ''chan'' ''please JOIN us'') = Inr ''bob''
   \<and> extractIRCMessage (privmsg_line ''bob'' ''u@h'' ''chan'' ''please JOIN us'')
        = Inr ''please JOIN us''
   \<and> handleMessage (privmsg_line ''bob'' ''u@h'' ''chan'' ''please JOIN us'')
         \<lparr>conn = 0, config = cfg0\<rparr> (WebhookURL cfg0)
       = Inr [Post ''*bob has joined the channel*'' (WebhookURL cfg0)]
   \<and> classify (''!x PRIVMSG #chan :hi'' @ [CR, LF]) = PRIVMSG
   \<and> handleMessage (''!x PRIVMSG #chan :hi'' @ [CR, LF])
         \<lparr>conn = 0, config = cfg0\<rparr> (WebhookURL cfg0)
       = Inl Panic"
  by (simp add: handleMessage_def classify_def HasPrefix_def Contains_def postToSlack_def
      extractNickname_def extractIRCMessage_def privmsg_line_def slice_def slice_from_def
      TrimRight_def)

text \<open>
  Claim C10. The reply to a PING is written with \<open>fmt.Fprintf(conn, response)\<close>, so
  the reply is read as a format string. On the line \<open>PING :a%b\<close> the bytes written are
  \<open>PONG :a%!b(MISSING)\<close> and not the line with PONG for PING.
\<close>

theorem pong_percent_not_verbatim:
  "handleMessage (''PING :a%b'' @ [CR, LF]) \<lparr>conn = 0, config = cfg0\<rparr> (WebhookURL cfg0)
     = Inr [Write 0 (''PONG :a%!b(MISSING)'' @ [CR, LF])]
   \<and> ''PONG :a%!b(MISSING)'' @ [CR, LF] \<noteq> Replace1 (''PING :a%b'' @ [CR, LF]) ''PING'' ''PONG''"
  by (simp add: handleMessage_def HasPrefix_def Replace1_def Fprintf_def directive_def
      parseWidth_def parsePrecision_def argNumber_def isFlag_def decodeVerb_def byte_def
      isDigit_def Let_def)

section \<open>Identity cache: expiry and lookup outcomes\<close>

















section \<open>Inbound webhook handler: responses\<close>

lemma fetchUser_writes: "writes (snd (fetchUser e u cfg w)) = writes w"
  by (auto simp: fetchUser_def Let_def split: api_reply.splits)

lemma getUserDisplayName_writes: "writes (snd (getUserDisplayName e u cfg w)) = writes w"
  by (auto simp: getUserDisplayName_def Let_def fetchUser_writes split: option.splits)

lemma translateMentions_writes: "writes (snd (translateMentions e s cfg w)) = writes w"
proof (induction e s cfg w rule: translateMentions.induct)
  case (1 e cfg w)
  then show ?case by simp
next
  case (2 e c s cfg w)
  show ?case
  proof (cases "matchMention (c # s)")
    case None
    from 2(1) [OF None] None show ?thesis by (auto split: prod.splits)
  next
    case (Some a)
    obtain userID r where a: "a = (userID, r)" by (cases a)
    obtain name w1 where g: "getUserDisplayName e userID cfg w = (name, w1)"
      by (cases "getUserDisplayName e userID cfg w")
    from getUserDisplayName_writes [of e userID cfg w] g have w1: "writes w1 = writes w" by simp
    from 2(2) [OF Some a [symmetric] g [symmetric]]
    have "writes (snd (translateMentions e r cfg w1)) = writes w1" .
    with Some a g w1 show ?thesis by (auto split: prod.splits)
  qed
qed

text \<open>
  Claim C4, as the handler has it. A request that is not a POST gets status 405; a POST
  whose body does not decode gets 400; a \<open>url_verification\<close> envelope gets 200 and the
  challenge as the body; a message event that the filter drops gets 200 and an empty body,
  and nothing is written to IRC; a message event that passes the filter gets 200 and the
  body \<open>ok\<close> when the write to IRC succeeds and 500 when it fails; every other envelope
  gets 200 and \<open>ok\<close>.
\<close>

theorem webhook_responses:
  "(Method r \<noteq> ''POST'' \<longrightarrow> StatusCode (fst (createWebhookHandler ircConn e r w)) = 405)
   \<and> (Method r = ''POST'' \<and> Body r = None \<longrightarrow>
        StatusCode (fst (createWebhookHandler ircConn e r w)) = 400)
   \<and> (\<forall>event. Method r = ''POST'' \<and> Body r = Some event \<longrightarrow>
        (Type event = ''url_verification'' \<longrightarrow>
           fst (createWebhookHandler ircConn e r w)
             = \<lparr>StatusCode = 200, Written = Challenge event\<rparr>)
      \<and> (isMessageEvent event \<and> \<not> shouldProcessMessage event (config ircConn) \<longrightarrow>
           fst (createWebhookHandler ircConn e r w) = \<lparr>StatusCode = 200, Written = []\<rparr>
           \<and> fst (snd (createWebhookHandler ircConn e r w)) = [])
      \<and> (isMessageEvent event \<and> shouldProcessMessage event (config ircConn)
           \<and> writeOk e (writes w) \<longrightarrow>
           fst (createWebhookHandler ircConn e r w) = \<lparr>StatusCode = 200, Written = ''ok''\<rparr>)
      \<and> (isMessageEvent event \<and> shouldProcessMessage event (config ircConn)
           \<and> \<not> writeOk e (writes w) \<longrightarrow>
           StatusCode (fst (createWebhookHandler ircConn e r w)) = 500)
      \<and> (Type event \<noteq> ''url_verification'' \<and> \<not> isMessageEvent event \<longrightarrow>
           fst (createWebhookHandler ircConn e r w) = \<lparr>StatusCode = 200, Written = ''ok''\<rparr>))"
proof (intro conjI impI allI)
  show "StatusCode (fst (createWebhookHandler ircConn e r w)) = 405" if "Method r \<noteq> ''POST''"
    using that by (simp add: createWebhookHandler_def httpError_def)
  show "StatusCode (fst (createWebhookHandler ircConn e r w)) = 400"
    if "Method r = ''POST'' \<and> Body r = None"
    using that by (simp add: createWebhookHandler_def httpError_def)
next
  fix event
  assume p: "Method r = ''POST'' \<and> Body r = Some event"
  show "fst (createWebhookHandler ircConn e r w) = \<lparr>StatusCode = 200, Written = Challenge event\<rparr>"
    if "Type event = ''url_verification''"
    using that p by (simp add: createWebhookHandler_def)
  show "fst (createWebhookHandler ircConn e r w) = \<lparr>StatusCode = 200, Written = []\<rparr>"
    if "isMessageEvent event \<and> \<not> shouldProcessMessage event (config ircConn)"
    using that p by (auto simp: createWebhookHandler_def isMessageEvent_def)
  show "fst (snd (createWebhookHandler ircConn e r w)) = []"
    if "isMessageEvent event \<and> \<not> shouldProcessMessage event (config ircConn)"
    using that p by (auto simp: createWebhookHandler_def isMessageEvent_def)
  show "fst (createWebhookHandler ircConn e r w) = \<lparr>StatusCode = 200, Written = ''ok''\<rparr>"
    if "Type event \<noteq> ''url_verification'' \<and> \<not> isMessageEvent event"
    using that p by (auto simp: createWebhookHandler_def isMessageEvent_def)
  obtain name w1 where g: "getUserDisplayName e (Event_User event) (config ircConn) w = (name, w1)"
    by (cases "getUserDisplayName e (Event_User event) (config ircConn) w")
  obtain t w2 where tm: "translateMentions e (Event_Text event) (config ircConn) w1 = (t, w2)"
    by (cases "translateMentions e (Event_Text event) (config ircConn) w1")
  have "writes w1 = writes w"
    using getUserDisplayName_writes [of e "Event_User event" "config ircConn" w] g by simp
  moreover have "writes w2 = writes w1"
    using translateMentions_writes [of e "Event_Text event" "config ircConn" w1] tm by simp
  ultimately have wr: "writes w2 = writes w" by simp
  show "fst (createWebhookHandler ircConn e r w) = \<lparr>StatusCode = 200, Written = ''ok''\<rparr>"
    if "isMessageEvent event \<and> shouldProcessMessage event (config ircConn) \<and> writeOk e (writes w)"
    using that p g tm wr
    by (auto simp: createWebhookHandler_def isMessageEvent_def Let_def)
  show "StatusCode (fst (createWebhookHandler ircConn e r w)) = 500"
    if "isMessageEvent event \<and> shouldProcessMessage event (config ircConn)
        \<and> \<not> writeOk e (writes w)"
    using that p g tm wr
    by (auto simp: createWebhookHandler_def isMessageEvent_def Let_def httpError_def)
qed

theorem webhook_responses_witness:
  "StatusCode (fst (createWebhookHandler \<lparr>conn = 0, config = cfg0\<rparr> env0
                     \<lparr>Method = ''GET'', Body = None\<rparr> world0)) = 405
   \<and> StatusCode (fst (createWebhookHandler \<lparr>conn = 0, config = cfg0\<rparr> env0
                     \<lparr>Method = ''POST'', Body = None\<rparr> world0)) = 400
   \<and> fst (createWebhookHandler \<lparr>conn = 0, config = cfg0\<rparr> env0
            (message_event ''U9'' ''hello'') world0) = \<lparr>StatusCode = 200, Written = []\<rparr>
   \<and> fst (createWebhookHandler \<lparr>conn = 0, config = cfg0\<rparr> env0
            (message_event ''U1'' ''hello'') world0) = \<lparr>StatusCode = 200, Written = ''ok''\<rparr>
   \<and> StatusCode (fst (createWebhookHandler \<lparr>conn = 0, config = cfg0\<rparr>
                     (env0\<lparr>writeOk := (\<lambda>k. False)\<rparr>)
                     (message_event ''U1'' ''hello'') world0)) = 500"
proof -
  let ?c = "\<lparr>conn = 0, config = cfg0\<rparr>"
  let ?ev = "\<lambda>u. slack_message u ''hello''"
  have m: "isMessageEvent (?ev u)" for u by (simp add: isMessageEvent_def slack_message_def)
  have b: "Method (message_event u ''hello'') = ''POST''
           \<and> Body (message_event u ''hello'') = Some (?ev u)" for u
    by (simp add: message_event_def)
  have s9: "\<not> shouldProcessMessage (?ev ''U9'') (config ?c)"
    by (simp add: shouldProcessMessage_def slack_message_def cfg0_def)
  have s1: "shouldProcessMessage (?ev ''U1'') (config ?c)"
    by (simp add: shouldProcessMessage_def slack_message_def cfg0_def)
  have ok: "writeOk env0 (writes world0)" by (simp add: env0_def)
  have ko: "\<not> writeOk (env0\<lparr>writeOk := (\<lambda>k. False)\<rparr>) (writes world0)" by simp
  from webhook_responses [of "\<lparr>Method = ''GET'', Body = None\<rparr>" ?c env0 world0]
  have "StatusCode (fst (createWebhookHandler ?c env0 \<lparr>Method = ''GET'', Body = None\<rparr> world0)) = 405"
    by simp
  moreover from webhook_responses [of "\<lparr>Method = ''POST'', Body = None\<rparr>" ?c env0 world0]
  have "StatusCode (fst (createWebhookHandler ?c env0 \<lparr>Method = ''POST'', Body = None\<rparr> world0)) = 400"
    by simp
  moreover from webhook_responses [of "message_event ''U9'' ''hello''" ?c env0 world0]
    b [of "''U9''"] m [of "''U9''"] s9
  have "fst (createWebhookHandler ?c env0 (message_event ''U9'' ''hello'') world0)
          = \<lparr>StatusCode = 200, Written = []\<rparr>"
    by blast
  moreover from webhook_responses [of "message_event ''U1'' ''hello''" ?c env0 world0]
    b [of "''U1''"] m [of "''U1''"] s1 ok
  have "fst (createWebhookHandler ?c env0 (message_event ''U1'' ''hello'') world0)
          = \<lparr>StatusCode = 200, Written = ''ok''\<rparr>"
    by blast
  moreover from webhook_responses [of "message_event ''U1'' ''hello''" ?c
      "env0\<lparr>writeOk := (\<lambda>k. False)\<rparr>" world0]
    b [of "''U1''"] m [of "''U1''"] s1 ko
  have "StatusCode (fst (createWebhookHandler ?c (env0\<lparr>writeOk := (\<lambda>k. False)\<rparr>)
                     (message_event ''U1'' ''hello'') world0)) = 500"
    by blast
  ultimately show ?thesis by blast
qed

text \<open>
  Claim C4 as it is stated gives every filtered message event the body \<open>ok\<close>. For a
  sender on the ignore list the handler sends the status alone.
\<close>

theorem filtered_event_body_counterexample:
  "isMessageEvent (slack_message ''U9'' ''hello'')
   \<and> \<not> shouldProcessMessage (slack_message ''U9'' ''hello'') cfg0
   \<and> fst (createWebhookHandler \<lparr>conn = 0, config = cfg0\<rparr> env0
            (message_event ''U9'' ''hello'') world0) = \<lparr>StatusCode = 200, Written = []\<rparr>
   \<and> Written (fst (createWebhookHandler \<lparr>conn = 0, config = cfg0\<rparr> env0
                     (message_event ''U9'' ''hello'') world0)) \<noteq> ''ok''"
  by (simp add: createWebhookHandler_def message_event_def slack_message_def isMessageEvent_def
      shouldProcessMessage_def cfg0_def)

section \<open>IRC session manager: reconnecting\<close>

lemma run_Suc:
  "manageIRCConnection e cfg (Suc n)
     = (fst (step e cfg (fst (manageIRCConnection e cfg n))),
        snd (manageIRCConnection e cfg n) @ snd (step e cfg (fst (manageIRCConnection e cfg n))))"
  by (simp split: prod.splits)

lemma step_stopped:
  "phase m = Exited \<or> phase m = Crashed \<Longrightarrow> step e cfg m = (m, [])"
  by (auto simp: step_def)

lemma first_dial_fatal:
  assumes "\<not> dialOk e 0"
  shows "manageIRCConnection e cfg (Suc n)
           = (manager0\<lparr>phase := Exited, dials := 1\<rparr>,
              [Dial (Server cfg), Log ''Failed to connect to IRC server'',
               Log ''Failed to establish initial IRC connection''])"
proof (induction n)
  case 0
  with assms show ?case by (simp add: step_def manager0_def)
next
  case (Suc n)
  have "step e cfg (manager0\<lparr>phase := Exited, dials := 1\<rparr>)
          = (manager0\<lparr>phase := Exited, dials := 1\<rparr>, [])"
    by (rule step_stopped) simp
  with Suc show ?case by (simp only: run_Suc [of e cfg "Suc n"] fst_conv snd_conv append_Nil2)
qed

lemma step_started:
  assumes "dialOk e 0" and "started m"
  shows "started (fst (step e cfg m))"
proof (cases "phase m")
  case AtDial
  with assms show ?thesis by (auto simp: step_def started_def Let_def)
next
  case (AtRead c)
  with assms show ?thesis
    by (auto simp: step_def started_def split: option.splits sum.splits)
next
  case Exited
  with assms show ?thesis by (simp add: started_def)
next
  case Crashed
  with assms show ?thesis by (auto simp: step_def started_def)
qed

lemma run_started:
  assumes "dialOk e 0"
  shows "started (fst (manageIRCConnection e cfg n))"
proof (induction n)
  case 0
  show ?case by (simp add: started_def manager0_def)
next
  case (Suc n)
  from step_started [OF assms Suc, of cfg] show ?case by (simp only: run_Suc fst_conv)
qed

lemma failure_logged:
  assumes "phase (fst (step e cfg m)) = AtDial"
  shows "\<exists>evs l. snd (step e cfg m) = evs @ [Log l]"
proof (cases "phase m")
  case AtDial
  with assms show ?thesis
    by (auto simp: step_def Let_def split: if_splits)
next
  case (AtRead c)
  with assms show ?thesis
    by (auto simp: step_def split: option.splits sum.splits)
next
  case Exited
  with assms show ?thesis by (simp add: step_def)
next
  case Crashed
  with assms show ?thesis by (simp add: step_def)
qed

lemma retry_dials:
  assumes "phase m = AtDial"
  shows "\<exists>evs. snd (step e cfg m) = Dial (Server cfg) # evs"
  using assms by (simp add: step_def Let_def)

lemma step_read_error:
  assumes "phase m = AtRead c" and "readString e (conn c) (reads m) = None"
  shows "step e cfg m
           = (m\<lparr>phase := AtDial\<rparr>,
              [Log ''Error reading from IRC'', Log ''IRC connection lost, reconnecting...''])"
  using assms by (simp add: step_def)

lemma step_dial_failed:
  assumes "phase m = AtDial" and "\<not> firstConnection m" and "\<not> dialOk e (dials m)"
  shows "step e cfg m
           = (m\<lparr>dials := dials m + 1\<rparr>,
              [Dial (Server cfg), Log ''Failed to connect to IRC server''])"
  using assms by (simp add: step_def)

lemma run_then_dial:
  assumes "phase (fst (manageIRCConnection e cfg k)) = AtDial"
  shows "\<exists>evs. snd (manageIRCConnection e cfg (Suc k))
                 = snd (manageIRCConnection e cfg k) @ Dial (Server cfg) # evs"
proof -
  from retry_dials [OF assms, of e cfg]
  obtain evs where "snd (step e cfg (fst (manageIRCConnection e cfg k))) = Dial (Server cfg) # evs"
    by blast
  then show ?thesis by (simp only: run_Suc snd_conv) blast
qed

text \<open>
  Claim C2, as the manager has it. When the very first dial fails the process exits, after
  logging the failure. When the first dial succeeds the process never exits, however many
  steps it runs, and at every step of the run: if the manager is reading and the read
  fails, the step logs the error and the loss of the connection and leaves the manager
  at the dial, and the next event of the run is a new dial; if the manager is at the dial
  and the dial fails, the step logs the failure and leaves the manager at the dial, and
  the next event of the run is a new dial.
\<close>

theorem reconnect_policy:
  "(\<not> dialOk e 0 \<longrightarrow>
      manageIRCConnection e cfg (Suc n)
        = (manager0\<lparr>phase := Exited, dials := 1\<rparr>,
           [Dial (Server cfg), Log ''Failed to connect to IRC server'',
            Log ''Failed to establish initial IRC connection'']))
   \<and> (dialOk e 0 \<longrightarrow>
        phase (fst (manageIRCConnection e cfg n)) \<noteq> Exited
        \<and> (\<forall>c. phase (fst (manageIRCConnection e cfg n)) = AtRead c
                \<and> readString e (conn c) (reads (fst (manageIRCConnection e cfg n))) = None \<longrightarrow>
              manageIRCConnection e cfg (Suc n)
                = ((fst (manageIRCConnection e cfg n))\<lparr>phase := AtDial\<rparr>,
                   snd (manageIRCConnection e cfg n)
                     @ [Log ''Error reading from IRC'',
                        Log ''IRC connection lost, reconnecting...''])
              \<and> (\<exists>evs. snd (manageIRCConnection e cfg (Suc (Suc n)))
                          = snd (manageIRCConnection e cfg (Suc n)) @ Dial (Server cfg) # evs))
        \<and> (phase (fst (manageIRCConnection e cfg n)) = AtDial
             \<and> \<not> dialOk e (dials (fst (manageIRCConnection e cfg n))) \<longrightarrow>
              manageIRCConnection e cfg (Suc n)
                = ((fst (manageIRCConnection e cfg n))
                     \<lparr>dials := dials (fst (manageIRCConnection e cfg n)) + 1\<rparr>,
                   snd (manageIRCConnection e cfg n)
                     @ [Dial (Server cfg), Log ''Failed to connect to IRC server''])
              \<and> (\<exists>evs. snd (manageIRCConnection e cfg (Suc (Suc n)))
                          = snd (manageIRCConnection e cfg (Suc n)) @ Dial (Server cfg) # evs)))"
proof (intro conjI impI allI)
  assume "\<not> dialOk e 0"
  then show "manageIRCConnection e cfg (Suc n)
        = (manager0\<lparr>phase := Exited, dials := 1\<rparr>,
           [Dial (Server cfg), Log ''Failed to connect to IRC server'',
            Log ''Failed to establish initial IRC connection''])"
    by (rule first_dial_fatal)
next
  assume "dialOk e 0"
  from run_started [OF this, of cfg n]
  show "phase (fst (manageIRCConnection e cfg n)) \<noteq> Exited" by (simp add: started_def)
next
  fix c
  let ?m = "fst (manageIRCConnection e cfg n)"
  assume a: "phase ?m = AtRead c \<and> readString e (conn c) (reads ?m) = None"
  then have st: "step e cfg ?m
           = (?m\<lparr>phase := AtDial\<rparr>,
              [Log ''Error reading from IRC'', Log ''IRC connection lost, reconnecting...''])"
    using step_read_error by blast
  then show r: "manageIRCConnection e cfg (Suc n)
                = (?m\<lparr>phase := AtDial\<rparr>,
                   snd (manageIRCConnection e cfg n)
                     @ [Log ''Error reading from IRC'',
                        Log ''IRC connection lost, reconnecting...''])"
    by (simp only: run_Suc fst_conv snd_conv)
  then have "phase (fst (manageIRCConnection e cfg (Suc n))) = AtDial" by simp
  then show "\<exists>evs. snd (manageIRCConnection e cfg (Suc (Suc n)))
                          = snd (manageIRCConnection e cfg (Suc n)) @ Dial (Server cfg) # evs"
    by (rule run_then_dial)
next
  let ?m = "fst (manageIRCConnection e cfg n)"
  assume ok: "dialOk e 0"
  assume a: "phase ?m = AtDial \<and> \<not> dialOk e (dials ?m)"
  from run_started [OF ok, of cfg n] have "firstConnection ?m \<longrightarrow> dials ?m = 0"
    by (simp add: started_def)
  with a ok have nf: "\<not> firstConnection ?m" by auto
  from a nf have st: "step e cfg ?m
           = (?m\<lparr>dials := dials ?m + 1\<rparr>,
              [Dial (Server cfg), Log ''Failed to connect to IRC server''])"
    using step_dial_failed by blast
  then show r: "manageIRCConnection e cfg (Suc n)
                = (?m\<lparr>dials := dials ?m + 1\<rparr>,
                   snd (manageIRCConnection e cfg n)
                     @ [Dial (Server cfg), Log ''Failed to connect to IRC server''])"
    by (simp only: run_Suc fst_conv snd_conv)
  with a have "phase (fst (manageIRCConnection e cfg (Suc n))) = AtDial" by simp
  then show "\<exists>evs. snd (manageIRCConnection e cfg (Suc (Suc n)))
                          = snd (manageIRCConnection e cfg (Suc n)) @ Dial (Server cfg) # evs"
    by (rule run_then_dial)
qed

theorem reconnect_policy_witness:
  "\<not> dialOk env2 0
   \<and> manageIRCConnection env2 cfg0 (Suc 5)
       = (manager0\<lparr>phase := Exited, dials := 1\<rparr>,
          [Dial (Server cfg0), Log ''Failed to connect to IRC server'',
           Log ''Failed to establish initial IRC connection''])
   \<and> dialOk env1 0
   \<and> phase (fst (manageIRCConnection env1 cfg0 1)) = AtRead \<lparr>conn = 0, config = cfg0\<rparr>
   \<and> readString env1 0 (reads (fst (manageIRCConnection env1 cfg0 1))) = None
   \<and> snd (manageIRCConnection env1 cfg0 (Suc 1))
       = snd (manageIRCConnection env1 cfg0 1)
           @ [Log ''Error reading from IRC'', Log ''IRC connection lost, reconnecting...'']
   \<and> (\<exists>evs. snd (manageIRCConnection env1 cfg0 (Suc (Suc 1)))
              = snd (manageIRCConnection env1 cfg0 (Suc 1)) @ Dial (Server cfg0) # evs)
   \<and> phase (fst (manageIRCConnection env1 cfg0 2)) = AtDial
   \<and> \<not> dialOk env1 (dials (fst (manageIRCConnection env1 cfg0 2)))
   \<and> snd (manageIRCConnection env1 cfg0 (Suc 2))
       = snd (manageIRCConnection env1 cfg0 2)
           @ [Dial (Server cfg0), Log ''Failed to connect to IRC server'']
   \<and> phase (fst (manageIRCConnection env1 cfg0 (Suc 2))) \<noteq> Exited
   \<and> (\<exists>evs. snd (manageIRCConnection env1 cfg0 (Suc (Suc 2)))
              = snd (manageIRCConnection env1 cfg0 (Suc 2)) @ Dial (Server cfg0) # evs)"
proof -
  let ?c = "\<lparr>conn = 0, config = cfg0\<rparr>"
  have h2: "\<not> dialOk env2 0" by (simp add: env2_def)
  have h1: "dialOk env1 0" by (simp add: env1_def)
  have p1: "phase (fst (manageIRCConnection env1 cfg0 1)) = AtRead ?c"
    by (simp add: step_def manager0_def env1_def env0_def Let_def)
  have r1: "readString env1 (conn ?c) (reads (fst (manageIRCConnection env1 cfg0 1))) = None"
    by (simp add: env1_def env0_def)
  have p2: "phase (fst (manageIRCConnection env1 cfg0 2)) = AtDial"
    by (simp add: eval_nat_numeral step_def manager0_def env1_def env0_def Let_def)
  have d2: "\<not> dialOk env1 (dials (fst (manageIRCConnection env1 cfg0 2)))"
    by (simp add: eval_nat_numeral step_def manager0_def env1_def env0_def Let_def)
  from reconnect_policy [of env2 cfg0 5] h2
  have a: "manageIRCConnection env2 cfg0 (Suc 5)
       = (manager0\<lparr>phase := Exited, dials := 1\<rparr>,
          [Dial (Server cfg0), Log ''Failed to connect to IRC server'',
           Log ''Failed to establish initial IRC connection''])"
    by blast
  from reconnect_policy [of env1 cfg0 1] h1 p1 r1
  have b1: "manageIRCConnection env1 cfg0 (Suc 1)
              = ((fst (manageIRCConnection env1 cfg0 1))\<lparr>phase := AtDial\<rparr>,
                 snd (manageIRCConnection env1 cfg0 1)
                   @ [Log ''Error reading from IRC'', Log ''IRC connection lost, reconnecting...''])"
    and b2: "\<exists>evs. snd (manageIRCConnection env1 cfg0 (Suc (Suc 1)))
              = snd (manageIRCConnection env1 cfg0 (Suc 1)) @ Dial (Server cfg0) # evs"
    by blast+
  from b1 have b1': "snd (manageIRCConnection env1 cfg0 (Suc 1))
       = snd (manageIRCConnection env1 cfg0 1)
           @ [Log ''Error reading from IRC'', Log ''IRC connection lost, reconnecting...'']"
    by (simp only: snd_conv)
  from reconnect_policy [of env1 cfg0 2] h1 p2 d2
  have c1: "manageIRCConnection env1 cfg0 (Suc 2)
              = ((fst (manageIRCConnection env1 cfg0 2))
                   \<lparr>dials := dials (fst (manageIRCConnection env1 cfg0 2)) + 1\<rparr>,
                 snd (manageIRCConnection env1 cfg0 2)
                   @ [Dial (Server cfg0), Log ''Failed to connect to IRC server''])"
    and c2: "\<exists>evs. snd (manageIRCConnection env1 cfg0 (Suc (Suc 2)))
              = snd (manageIRCConnection env1 cfg0 (Suc 2)) @ Dial (Server cfg0) # evs"
    by blast+
  from c1 have c1': "snd (manageIRCConnection env1 cfg0 (Suc 2))
       = snd (manageIRCConnection env1 cfg0 2)
           @ [Dial (Server cfg0), Log ''Failed to connect to IRC server'']"
    by (simp only: snd_conv)
  from reconnect_policy [of env1 cfg0 "Suc 2"] h1
  have e: "phase (fst (manageIRCConnection env1 cfg0 (Suc 2))) \<noteq> Exited" by blast
  from r1 have r1': "readString env1 0 (reads (fst (manageIRCConnection env1 cfg0 1))) = None"
    by simp
  from h2 a h1 p1 r1' b1' b2 p2 d2 c1' c2 e show ?thesis by blast
qed

text \<open>
  Claim C2 as it is stated asks for a fixed delay before every retry. There is none: with
  the first connection lost at once and the next dial refused, the new dial follows the
  log line of the failure directly.
\<close>

theorem retry_without_delay:
  "snd (manageIRCConnection env1 cfg0 4) =
     [Dial ''irc.example.net:6667'',
      Write 0 (''NICK bridge'' @ [CR, LF]),
      Write 0 (''USER bridge 8 * :bridge'' @ [CR, LF]),
      Write 0 (''JOIN #chan'' @ [CR, LF]),
      Ready \<lparr>conn = 0, config = cfg0\<rparr>,
      Log ''Error reading from IRC'',
      Log ''IRC connection lost, reconnecting...'',
      Dial ''irc.example.net:6667'',
      Log ''Failed to connect to IRC server'',
      Dial ''irc.example.net:6667'',
      Write 1 (''NICK bridge'' @ [CR, LF]),
      Write 1 (''USER bridge 8 * :bridge'' @ [CR, LF]),
      Write 1 (''JOIN #chan'' @ [CR, LF])]
   \<and> \<not> retryDelayed (snd (manageIRCConnection env1 cfg0 4))"
  by (simp add: eval_nat_numeral step_def manager0_def env1_def env0_def cfg0_def Let_def)

lemma step_no_Sleep: "Sleep d \<notin> set (snd (step e cfg m))"
  by (auto simp: step_def Let_def handleMessage_def postToSlack_def Fprintf_def
      split: phase.splits option.splits sum.splits if_splits)

lemma manager_never_sleeps: "Sleep d \<notin> set (snd (manageIRCConnection e cfg n))"
  by (induction n) (simp_all only: run_Suc snd_conv set_append Un_iff step_no_Sleep
      manageIRCConnection.simps(1) list.set empty_iff simp_thms)

section \<open>The connection the webhook handler writes to\<close>

lemma firstReady_append:
  "firstReady (evs @ evs') = (case firstReady evs of Some c \<Rightarrow> Some c | None \<Rightarrow> firstReady evs')"
  by (induction evs rule: firstReady.induct) auto

lemma handleMessage_no_Ready:
  "handleMessage message c url = Inr evs \<Longrightarrow> firstReady evs = None"
  by (auto simp: handleMessage_def postToSlack_def Fprintf_def Let_def
      split: if_splits sum.splits)

lemma step_published:
  assumes "published cfg (m, evs)"
  shows "published cfg (fst (step e cfg m), evs @ snd (step e cfg m))"
proof (cases "phase m")
  case AtDial
  with assms show ?thesis
    by (auto simp: step_def published_def Let_def firstReady_append)
next
  case (AtRead c)
  with assms have nf: "\<not> firstConnection m" by (auto simp: published_def)
  with assms have fr: "firstReady evs = Some \<lparr>conn = 0, config = cfg\<rparr>"
    by (simp add: published_def)
  from assms AtRead have cn: "conn c + 1 = conns m" by (simp add: published_def)
  from AtRead nf fr cn show ?thesis
    by (auto simp: step_def published_def firstReady_append split: option.splits sum.splits)
next
  case Exited
  with assms show ?thesis by (auto simp: step_def published_def)
next
  case Crashed
  with assms show ?thesis by (auto simp: step_def published_def)
qed

lemma run_published: "published cfg (manageIRCConnection e cfg n)"
proof (induction n)
  case 0
  show ?case by (simp add: published_def manager0_def)
next
  case (Suc n)
  from step_published [of cfg "fst (manageIRCConnection e cfg n)" "snd (manageIRCConnection e cfg n)" e] Suc
  show ?case by (simp only: run_Suc prod.collapse)
qed

lemma handler_writes_own_conn:
  "Write k b \<in> set (fst (snd (createWebhookHandler c e r w))) \<Longrightarrow> k = conn c"
  by (auto simp: createWebhookHandler_def Fprintf_def Let_def
      split: if_splits option.splits prod.splits)

lemma stale_handle:
  assumes "phase (fst (manageIRCConnection e cfg n)) = AtRead cur"
    and "2 \<le> conns (fst (manageIRCConnection e cfg n))"
    and "mainHandler (snd (manageIRCConnection e cfg n)) = Some h"
    and "Write k b \<in> set (fst (snd (h e' r w)))"
  shows "k = 0 \<and> k \<noteq> conn cur"
proof -
  obtain m evs where s: "manageIRCConnection e cfg n = (m, evs)"
    by (cases "manageIRCConnection e cfg n")
  from run_published [of cfg e n] s have p: "published cfg (m, evs)" by simp
  from assms(1,2) s have cur: "phase m = AtRead cur" and two: "2 \<le> conns m" by simp_all
  from p cur have nf: "\<not> firstConnection m" by (auto simp: published_def)
  with p have fr: "firstReady evs = Some \<lparr>conn = 0, config = cfg\<rparr>"
    by (simp add: published_def)
  with assms(3) s have h: "h = createWebhookHandler \<lparr>conn = 0, config = cfg\<rparr>"
    by (simp add: mainHandler_def)
  from handler_writes_own_conn assms(4) h have "k = 0" by fastforce
  moreover from p cur have "conn cur + 1 = conns m" by (simp add: published_def)
  ultimately show ?thesis using two by simp
qed

text \<open>
  Claim C1. The connection sent on the readiness channel is the first one, and the
  handler of \<open>main\<close> keeps it. After the first connection is lost and the manager has
  connected again (it reads connection 1), a relayed message is still written to
  connection 0.
\<close>

theorem webhook_write_after_reconnect:
  "phase (fst (manageIRCConnection env0 cfg0 3)) = AtRead \<lparr>conn = 1, config = cfg0\<rparr>
   \<and> firstReady (snd (manageIRCConnection env0 cfg0 3)) = Some \<lparr>conn = 0, config = cfg0\<rparr>
   \<and> map_option (\<lambda>h. fst (snd (h env0 (message_event ''U1'' ''hello'') world0)))
        (mainHandler (snd (manageIRCConnection env0 cfg0 3)))
      = Some [Write 0 (''PRIVMSG #chan :<alice> hello'' @ [CR, LF])]"
  by (simp add: eval_nat_numeral step_def manager0_def env0_def cfg0_def Let_def
      mainHandler_def createWebhookHandler_def message_event_def slack_message_def shouldProcessMessage_def
      getUserDisplayName_def fetchUser_def world0_def matchMention_def Fprintf_def)

end
